theory Spec2Isabelle
  imports Complex_Main "HOL-Library.Multiset"
begin

unbundle bit_operations_syntax

section \<open>JavaScript numbers and strings as the monitor uses them\<close>

text \<open>
  The monitor (\<^verbatim>\<open>src/spa-monitor.ts\<close>) reads the \<^verbatim>\<open>dsp\<close> field of a JSON message, a string
  of hexadecimal characters, and turns every two characters into a byte with
  \<^verbatim>\<open>parseInt(chunk, 16)\<close>. A byte is therefore a JavaScript number: an integer, or
  \<^verbatim>\<open>NaN\<close> when the chunk holds no hexadecimal digit. Reading an array beyond its end gives
  \<^verbatim>\<open>undefined\<close>, written \<open>None\<close> here; \<^verbatim>\<open>null\<close> is \<open>None\<close> as well where the source
  uses it. Strings are lists of ASCII characters.
\<close>

datatype jsnum = NaN | Num int

text \<open>
  The operands of \<^verbatim>\<open>&\<close> go through \<^verbatim>\<open>ToInt32\<close>: \<^verbatim>\<open>undefined\<close> and \<^verbatim>\<open>NaN\<close> become 0, an
  integer is wrapped into 32-bit two's complement.
\<close>

definition toInt32 :: "jsnum option \<Rightarrow> int" where
  "toInt32 v = (case v of None \<Rightarrow> 0 | Some NaN \<Rightarrow> 0 | Some (Num n) \<Rightarrow> signed_take_bit 31 n)"

definition jsAnd :: "jsnum option \<Rightarrow> int \<Rightarrow> int" where
  "jsAnd v m = toInt32 v AND m"

definition upperToLower :: "(char \<times> char) list" where
  "upperToLower = zip ''ABCDEFGHIJKLMNOPQRSTUVWXYZ'' ''abcdefghijklmnopqrstuvwxyz''"

definition lowerToUpper :: "(char \<times> char) list" where
  "lowerToUpper = zip ''abcdefghijklmnopqrstuvwxyz'' ''ABCDEFGHIJKLMNOPQRSTUVWXYZ''"

definition toLowerCase :: "string \<Rightarrow> string" where
  "toLowerCase s = map (\<lambda>c. case map_of upperToLower c of Some d \<Rightarrow> d | None \<Rightarrow> c) s"

definition toUpperCase :: "string \<Rightarrow> string" where
  "toUpperCase s = map (\<lambda>c. case map_of lowerToUpper c of Some d \<Rightarrow> d | None \<Rightarrow> c) s"

definition substring :: "string \<Rightarrow> nat \<Rightarrow> nat \<Rightarrow> string" where
  "substring s i j = take (j - i) (drop i s)"

definition hexDigitValue :: "char \<Rightarrow> int option" where
  "hexDigitValue c = map_of
     (zip ''0123456789abcdefABCDEF'' [0, 1, 2, 3, 4, 5, 6, 7, 8, 9, 10, 11, 12, 13, 14, 15, 10, 11, 12, 13, 14, 15]) c"

definition isHexDigit :: "char \<Rightarrow> bool" where
  "isHexDigit c = (hexDigitValue c \<noteq> None)"

definition isWhiteSpace :: "char \<Rightarrow> bool" where
  "isWhiteSpace c = (c \<in> set [CHR 0x09, CHR 0x0A, CHR 0x0B, CHR 0x0C, CHR 0x0D, CHR 0x20])"

definition hexValue :: "string \<Rightarrow> int" where
  "hexValue z = foldl (\<lambda>a c. 16 * a + (case hexDigitValue c of Some v \<Rightarrow> v | None \<Rightarrow> 0)) 0 z"

text \<open>
  \<^verbatim>\<open>parseInt(s, 16)\<close>: leading white space is skipped, a sign is read, a prefix \<^verbatim>\<open>0x\<close> or
  \<^verbatim>\<open>0X\<close> is dropped, and the longest run of hexadecimal digits that follows is the value;
  with no digit the result is \<^verbatim>\<open>NaN\<close>.
\<close>

definition parseInt16 :: "string \<Rightarrow> jsnum" where
  "parseInt16 s =
     (let s1 = dropWhile isWhiteSpace s;
          neg = (case s1 of [] \<Rightarrow> False | c # _ \<Rightarrow> c = CHR ''-'');
          s2 = (case s1 of [] \<Rightarrow> [] | c # cs \<Rightarrow> if c = CHR ''+'' \<or> c = CHR ''-'' then cs else s1);
          s3 = (if take 2 s2 = ''0x'' \<or> take 2 s2 = ''0X'' then drop 2 s2 else s2);
          z = takeWhile isHexDigit s3
      in if z = [] then NaN else Num ((if neg then - 1 else 1) * hexValue z))"

section \<open>The display decoder\<close>

definition SAMPLE_COUNT :: nat where
  "SAMPLE_COUNT = 3"

definition MIN_VALID_TEMP :: int where
  "MIN_VALID_TEMP = 45"

definition MAX_VALID_TEMP :: int where
  "MAX_VALID_TEMP = 106"

definition SEVEN_SEGMENT_DIGITS :: "(int \<times> int) list" where
  "SEVEN_SEGMENT_DIGITS =
     [(0x00, 0), (0x3f, 0), (0x06, 1), (0x5b, 2), (0x4f, 3), (0x66, 4),
      (0x6d, 5), (0x7d, 6), (0x07, 7), (0x7f, 8), (0x6f, 9)]"

definition SEVEN_SEGMENT_LETTERS :: "(int \<times> char) list" where
  "SEVEN_SEGMENT_LETTERS =
     [(0x79, CHR ''E''), (0x39, CHR ''C''), (0x5c, CHR ''o''), (0x54, CHR ''n''),
      (0x71, CHR ''F''), (0x76, CHR ''H''), (0x38, CHR ''L''), (0x3e, CHR ''U''),
      (0x73, CHR ''P'')]"

definition PATTERN_ECON :: string where
  "PATTERN_ECON = ''545c3979''"

definition PATTERN_BLANK :: string where
  "PATTERN_BLANK = ''0000000000''"

datatype DisplayType = Temp | Time | Eco | Blank | Heating | Unknown

text \<open>
  The result of decoding one frame. The fields \<^verbatim>\<open>value\<close> and \<^verbatim>\<open>raw\<close> of the source are
  texts for the log that no other code reads; they are left out. An optional field that is
  absent and a field holding \<^verbatim>\<open>undefined\<close> are both \<open>None\<close>: the source tells them apart
  nowhere (it tests \<^verbatim>\<open>!== undefined\<close>).
\<close>

record DisplayResult =
  dtype :: DisplayType
  temp :: "int option"
  statusByte1 :: "jsnum option"
  statusByte2 :: "jsnum option"

definition STATUS_HEATING :: int where "STATUS_HEATING = 0x01"
definition STATUS_AUX_HI :: int where "STATUS_AUX_HI = 0x02"
definition STATUS_JETS_LO :: int where "STATUS_JETS_LO = 0x04"
definition STATUS_JETS_HI :: int where "STATUS_JETS_HI = 0x08"
definition STATUS_FILTERING :: int where "STATUS_FILTERING = 0x10"
definition STATUS_EDIT :: int where "STATUS_EDIT = 0x20"
definition STATUS_OVERHEAT :: int where "STATUS_OVERHEAT = 0x40"
definition STATUS_AM :: int where "STATUS_AM = 0x80"

definition STATUS2_LIGHT :: int where "STATUS2_LIGHT = 0x10"
definition STATUS2_JETS2_HI :: int where "STATUS2_JETS2_HI = 0x20"
definition STATUS2_JETS2_LO :: int where "STATUS2_JETS2_LO = 0x40"
definition STATUS2_AUX_LO :: int where "STATUS2_AUX_LO = 0x80"

definition decodeDigit :: "jsnum option \<Rightarrow> int option" where
  "decodeDigit byte = (let masked = jsAnd byte 0x7f in map_of SEVEN_SEGMENT_DIGITS masked)"

definition decodeLetter :: "jsnum option \<Rightarrow> char option" where
  "decodeLetter byte = (let masked = jsAnd byte 0x7f in map_of SEVEN_SEGMENT_LETTERS masked)"

text \<open>The loop that cuts the string into chunks of two characters (the last may have one).\<close>

fun hexBytes :: "string \<Rightarrow> jsnum list" where
  "hexBytes [] = []"
| "hexBytes [c] = [parseInt16 [c]]"
| "hexBytes (c # d # cs) = parseInt16 [c, d] # hexBytes cs"

text \<open>\<^verbatim>\<open>bytes[i]\<close>: \<^verbatim>\<open>undefined\<close> beyond the end of the array.\<close>

definition byteAt :: "jsnum list \<Rightarrow> nat \<Rightarrow> jsnum option" where
  "byteAt bytes i = (if i < length bytes then Some (bytes ! i) else None)"

definition lettersOf :: "jsnum list \<Rightarrow> string" where
  "lettersOf bytes = List.map_filter (\<lambda>b. decodeLetter (Some b)) (take 4 bytes)"

text \<open>The test of the letter step: at least two letters that, reversed, spell a known word.\<close>

definition isLetterText :: "jsnum list \<Rightarrow> bool" where
  "isLetterText bytes =
     (let letters = lettersOf bytes
      in length letters \<ge> 2
         \<and> (let text = rev letters
              in toUpperCase text \<in> set [''HI'', ''LO'', ''ON'', ''OFF'', ''ECO'']))"

text \<open>
  The temperature step of \<^verbatim>\<open>parseDisplayData\<close> has two blocks that each may return: the
  three-digit block and, after it, the two-digit block. Each is a function that gives the
  accepted temperature, or \<open>None\<close> when the source leaves the block without returning.
\<close>

definition threeDigitTemp :: "int option \<Rightarrow> int option \<Rightarrow> int option \<Rightarrow> int option" where
  "threeDigitTemp hundredsDigit tensDigit onesDigit =
     (case (tensDigit, onesDigit) of
        (Some t, Some o1) \<Rightarrow>
          if hundredsDigit = Some 1 then
            (let tempValue = 100 + t * 10 + o1
             in if tempValue \<ge> 100 \<and> tempValue \<le> MAX_VALID_TEMP then Some tempValue else None)
          else None
      | _ \<Rightarrow> None)"

definition twoDigitTemp :: "int option \<Rightarrow> int option \<Rightarrow> int option" where
  "twoDigitTemp tensDigit onesDigit =
     (case (tensDigit, onesDigit) of
        (Some t, Some o1) \<Rightarrow>
          (let tempValue = t * 10 + o1
           in if tempValue \<ge> MIN_VALID_TEMP \<and> tempValue \<le> 99 then Some tempValue else None)
      | _ \<Rightarrow> None)"

definition temperatureOf :: "jsnum list \<Rightarrow> int option" where
  "temperatureOf bytes =
     (if jsAnd (byteAt bytes 0) 0x7f = 0x71 then
        (let hundredsDigit = decodeDigit (byteAt bytes 3);
             tensDigit = decodeDigit (byteAt bytes 2);
             onesDigit = decodeDigit (byteAt bytes 1)
         in case threeDigitTemp hundredsDigit tensDigit onesDigit of
              Some tempValue \<Rightarrow> Some tempValue
            | None \<Rightarrow> twoDigitTemp tensDigit onesDigit)
      else None)"

definition parseDisplayData :: "string \<Rightarrow> DisplayResult" where
  "parseDisplayData hexString =
     (let bytes = hexBytes hexString;
          prefix = toLowerCase (substring hexString 0 10)
      in
        if prefix = PATTERN_BLANK \<or> hexString = ''000000000010'' then
          \<lparr>dtype = Blank, temp = None, statusByte1 = None, statusByte2 = None\<rparr>
        else if toLowerCase (substring hexString 0 8) = toLowerCase PATTERN_ECON then
          \<lparr>dtype = Eco, temp = None, statusByte1 = byteAt bytes 4, statusByte2 = byteAt bytes 5\<rparr>
        else if isLetterText bytes then
          \<lparr>dtype = Unknown, temp = None, statusByte1 = None, statusByte2 = None\<rparr>
        else
          (case temperatureOf bytes of
             Some t \<Rightarrow>
               \<lparr>dtype = Temp, temp = Some t, statusByte1 = byteAt bytes 4, statusByte2 = byteAt bytes 5\<rparr>
           | None \<Rightarrow>
               (let d0 = decodeDigit (byteAt bytes 0);
                    d1 = decodeDigit (byteAt bytes 1);
                    d2 = decodeDigit (byteAt bytes 2)
                in if d0 \<noteq> None \<and> d1 \<noteq> None \<and> d2 \<noteq> None then
                     \<lparr>dtype = Time, temp = None, statusByte1 = byteAt bytes 4, statusByte2 = byteAt bytes 5\<rparr>
                   else
                     \<lparr>dtype = Unknown, temp = None, statusByte1 = byteAt bytes 4, statusByte2 = byteAt bytes 5\<rparr>)))"

section \<open>The state that one collection keeps\<close>

record CollectionState =
  currentTemp :: "int option"
  heating :: bool
  auxHi :: bool
  jetsLo :: bool
  jetsHi :: bool
  filtering :: bool
  lightOn :: bool
  edit :: bool
  overheat :: bool
  jets2Hi :: bool
  jets2Lo :: bool
  auxLo :: bool
  lastStatusByte1 :: "jsnum option"

definition updateStateFromDisplay :: "DisplayResult \<Rightarrow> CollectionState \<Rightarrow> CollectionState" where
  "updateStateFromDisplay display st =
     (let st1 = (if statusByte1 display \<noteq> None then
                   st\<lparr>heating := jsAnd (statusByte1 display) STATUS_HEATING \<noteq> 0,
                      auxHi := jsAnd (statusByte1 display) STATUS_AUX_HI \<noteq> 0,
                      jetsLo := jsAnd (statusByte1 display) STATUS_JETS_LO \<noteq> 0,
                      jetsHi := jsAnd (statusByte1 display) STATUS_JETS_HI \<noteq> 0,
                      filtering := jsAnd (statusByte1 display) STATUS_FILTERING \<noteq> 0,
                      edit := jsAnd (statusByte1 display) STATUS_EDIT \<noteq> 0,
                      overheat := jsAnd (statusByte1 display) STATUS_OVERHEAT \<noteq> 0,
                      lastStatusByte1 := statusByte1 display\<rparr>
                 else st);
          st2 = (if statusByte2 display \<noteq> None then
                   st1\<lparr>lightOn := jsAnd (statusByte2 display) STATUS2_LIGHT \<noteq> 0,
                       jets2Hi := jsAnd (statusByte2 display) STATUS2_JETS2_HI \<noteq> 0,
                       jets2Lo := jsAnd (statusByte2 display) STATUS2_JETS2_LO \<noteq> 0,
                       auxLo := jsAnd (statusByte2 display) STATUS2_AUX_LO \<noteq> 0\<rparr>
                 else st1)
      in if dtype display = Temp \<and> temp display \<noteq> None then st2\<lparr>currentTemp := temp display\<rparr>
         else st2)"

text \<open>
  \<^verbatim>\<open>median\<close>: the numbers are sorted in ascending order (the comparator is \<^verbatim>\<open>a - b\<close>) and
  the middle one, or the mean of the two middle ones, is returned. JavaScript numbers are
  taken as reals here: the samples are integers between 45 and 106, on which the
  floating-point sum and halving are exact.
\<close>

definition median :: "real list \<Rightarrow> real option" where
  "median vals =
     (if length vals = 0 then None
      else
        (let sortedVals = sort vals;
             mid = length sortedVals div 2
         in if length sortedVals mod 2 \<noteq> 0 then Some (sortedVals ! mid)
            else Some ((sortedVals ! (mid - 1) + sortedVals ! mid) / 2)))"

text \<open>
  One row handed to \<^verbatim>\<open>insertReading\<close> (\<^verbatim>\<open>src/database.ts\<close>): the object \<^verbatim>\<open>reading\<close>
  and the flag \<^verbatim>\<open>am\<close>. The time stamp, taken from the clock on insertion, is not part of
  the model, and the insertion is taken to succeed.
\<close>

record Reading =
  r_currentTemp :: "real option"
  r_heating :: bool
  r_jetsLo :: bool
  r_jetsHi :: bool
  r_auxHi :: bool
  r_filtering :: bool
  r_lightOn :: bool
  r_edit :: bool
  r_overheat :: bool
  r_jets2Hi :: bool
  r_jets2Lo :: bool
  r_auxLo :: bool
  r_am :: bool

definition writeReading :: "int list \<Rightarrow> CollectionState \<Rightarrow> Reading" where
  "writeReading samples0 st =
     (let tempMedian = median (map real_of_int samples0);
          am = (if lastStatusByte1 st \<noteq> None then jsAnd (lastStatusByte1 st) STATUS_AM \<noteq> 0
                else False)
      in \<lparr>r_currentTemp = tempMedian,
          r_heating = heating st,
          r_jetsLo = jetsLo st,
          r_jetsHi = jetsHi st,
          r_auxHi = auxHi st,
          r_filtering = filtering st,
          r_lightOn = lightOn st,
          r_edit = edit st,
          r_overheat = overheat st,
          r_jets2Hi = jets2Hi st,
          r_jets2Lo = jets2Lo st,
          r_auxLo = auxLo st,
          r_am = am\<rparr>)"

section \<open>One collection session\<close>

text \<open>
  \<^verbatim>\<open>collectReading\<close> creates the sample list and the state, opens the socket, starts the
  30 second timer and installs four handlers on the socket. The session is the record of
  what these closures share: the samples, the state, whether the timer is still pending
  (neither fired nor cleared), how often \<^verbatim>\<open>ws.close()\<close> was called, the rows passed to
  \<^verbatim>\<open>insertReading\<close>, in order, and the state of the promise that \<^verbatim>\<open>collectReading\<close>
  returns. Each handler is a function on the session; an event is one call of a handler.
\<close>

datatype PromiseState = Pending | Resolved | Rejected

record Session =
  samples :: "int list"
  state :: CollectionState
  timeoutPending :: bool
  closeCalls :: nat
  inserted :: "Reading list"
  promise :: PromiseState

text \<open>
  What a message carries for the handler: \<open>Dsp s\<close> is a JSON text whose field \<^verbatim>\<open>dsp\<close> is the
  string \<open>s\<close>; \<open>NoDsp\<close> is every other message: a text that is not JSON, a JSON value without
  \<^verbatim>\<open>dsp\<close> or with a falsy one, and a \<^verbatim>\<open>dsp\<close> that is not a string, on which
  \<^verbatim>\<open>parseDisplayData\<close> throws before anything is changed and the handler's \<^verbatim>\<open>catch\<close>
  drops the exception.
\<close>

datatype Payload = NoDsp | Dsp string

datatype Event = WsOpen | WsMessage Payload | WsClose | WsError | TimerFired

definition initialState :: CollectionState where
  "initialState =
     \<lparr>currentTemp = None, heating = False, auxHi = False, jetsLo = False, jetsHi = False,
      filtering = False, lightOn = False, edit = False, overheat = False, jets2Hi = False,
      jets2Lo = False, auxLo = False, lastStatusByte1 = None\<rparr>"

definition collectReading :: Session where
  "collectReading =
     \<lparr>samples = [], state = initialState, timeoutPending = True, closeCalls = 0,
      inserted = [], promise = Pending\<rparr>"

text \<open>A promise is settled once: \<^verbatim>\<open>resolve\<close> and \<^verbatim>\<open>reject\<close> on a settled promise do nothing.\<close>

definition resolve :: "Session \<Rightarrow> Session" where
  "resolve s = (if promise s = Pending then s\<lparr>promise := Resolved\<rparr> else s)"

definition reject :: "Session \<Rightarrow> Session" where
  "reject s = (if promise s = Pending then s\<lparr>promise := Rejected\<rparr> else s)"

definition clearTimeout :: "Session \<Rightarrow> Session" where
  "clearTimeout s = s\<lparr>timeoutPending := False\<rparr>"

definition wsClose :: "Session \<Rightarrow> Session" where
  "wsClose s = s\<lparr>closeCalls := closeCalls s + 1\<rparr>"

definition insertReading :: "Reading \<Rightarrow> Session \<Rightarrow> Session" where
  "insertReading r s = s\<lparr>inserted := inserted s @ [r]\<rparr>"

text \<open>The callback of \<^verbatim>\<open>setTimeout\<close>; it runs only if the timer is pending, and then once.\<close>

definition onTimeout :: "Session \<Rightarrow> Session" where
  "onTimeout s =
     (if timeoutPending s then
        (let s1 = wsClose (s\<lparr>timeoutPending := False\<rparr>);
             s2 = (if length (samples s1) > 0
                   then insertReading (writeReading (samples s1) (state s1)) s1 else s1)
         in resolve s2)
      else s)"

definition onOpen :: "Session \<Rightarrow> Session" where
  "onOpen s = s"

definition onMessage :: "Payload \<Rightarrow> Session \<Rightarrow> Session" where
  "onMessage p s =
     (case p of
        NoDsp \<Rightarrow> s
      | Dsp dsp \<Rightarrow>
          if dsp = [] then s
          else
            (let dspData = (if length dsp = 10 then dsp @ ''00'' else dsp);
                 display = parseDisplayData dspData;
                 s1 = s\<lparr>state := updateStateFromDisplay display (state s)\<rparr>
             in case temp display of
                  Some t \<Rightarrow>
                    if dtype display = Temp then
                      (let s2 = s1\<lparr>samples := samples s1 @ [t]\<rparr>
                       in if length (samples s2) \<ge> SAMPLE_COUNT then
                            resolve (insertReading (writeReading (samples s2) (state s2))
                                       (wsClose (clearTimeout s2)))
                          else s2)
                    else s1
                | None \<Rightarrow> s1))"

definition onClose :: "Session \<Rightarrow> Session" where
  "onClose s = resolve (clearTimeout s)"

definition onError :: "Session \<Rightarrow> Session" where
  "onError s = reject (clearTimeout s)"

definition handle :: "Event \<Rightarrow> Session \<Rightarrow> Session" where
  "handle e s =
     (case e of
        WsOpen \<Rightarrow> onOpen s
      | WsMessage p \<Rightarrow> onMessage p s
      | WsClose \<Rightarrow> onClose s
      | WsError \<Rightarrow> onError s
      | TimerFired \<Rightarrow> onTimeout s)"

text \<open>
  The display that the message handler decodes from a message, if it decodes one: a \<^verbatim>\<open>dsp\<close>
  of 10 characters gets \<^verbatim>\<open>00\<close> appended first.
\<close>

definition displayOf :: "Payload \<Rightarrow> DisplayResult option" where
  "displayOf p =
     (case p of
        NoDsp \<Rightarrow> None
      | Dsp dsp \<Rightarrow>
          if dsp = [] then None
          else Some (parseDisplayData (if length dsp = 10 then dsp @ ''00'' else dsp)))"

text \<open>
  The session after the events \<open>es\<close>, delivered one after the other, from a session \<open>s\<close>
  and from the start.
\<close>

definition runFrom :: "Session \<Rightarrow> Event list \<Rightarrow> Session" where
  "runFrom s es = foldl (\<lambda>s e. handle e s) s es"

definition run :: "Event list \<Rightarrow> Session" where
  "run es = runFrom collectReading es"

text \<open>What the events of a session are, for the statements below.\<close>

definition sampleOf :: "Event \<Rightarrow> int option" where
  "sampleOf e =
     (case e of
        WsMessage p \<Rightarrow>
          (case displayOf p of
             Some display \<Rightarrow> if dtype display = Temp then temp display else None
           | None \<Rightarrow> None)
      | _ \<Rightarrow> None)"

definition carriesStatusA :: "Event \<Rightarrow> bool" where
  "carriesStatusA e =
     (case e of
        WsMessage p \<Rightarrow>
          (case displayOf p of Some display \<Rightarrow> statusByte1 display \<noteq> None | None \<Rightarrow> False)
      | _ \<Rightarrow> False)"

definition isFrameOrOpen :: "Event \<Rightarrow> bool" where
  "isFrameOrOpen e = (case e of WsOpen \<Rightarrow> True | WsMessage _ \<Rightarrow> True | _ \<Rightarrow> False)"

definition isMessage :: "Event \<Rightarrow> bool" where
  "isMessage e = (case e of WsMessage _ \<Rightarrow> True | _ \<Rightarrow> False)"

text \<open>The samples that the frames among the events \<open>es\<close> carry, in order.\<close>

definition samplesOf :: "Event list \<Rightarrow> int list" where
  "samplesOf es = List.map_filter sampleOf es"

text \<open>Two states with the same flags and the same last status byte A.\<close>

definition sameFlags :: "CollectionState \<Rightarrow> CollectionState \<Rightarrow> bool" where
  "sameFlags s' s = (heating s' = heating s \<and> auxHi s' = auxHi s \<and> jetsLo s' = jetsLo s
       \<and> jetsHi s' = jetsHi s \<and> filtering s' = filtering s \<and> lightOn s' = lightOn s
       \<and> edit s' = edit s \<and> overheat s' = overheat s \<and> jets2Hi s' = jets2Hi s
       \<and> jets2Lo s' = jets2Lo s \<and> auxLo s' = auxLo s \<and> lastStatusByte1 s' = lastStatusByte1 s)"

text \<open>What holds of a session as long as its promise is pending.\<close>

definition pendingInv :: "Session \<Rightarrow> bool" where
  "pendingInv s = (inserted s = [] \<and> timeoutPending s \<and> length (samples s) < 3 \<and> closeCalls s = 0)"

section \<open>Status bits\<close>

lemmas status_masks =
  STATUS_HEATING_def STATUS_AUX_HI_def STATUS_JETS_LO_def STATUS_JETS_HI_def
  STATUS_FILTERING_def STATUS_EDIT_def STATUS_OVERHEAT_def STATUS_AM_def
  STATUS2_LIGHT_def STATUS2_JETS2_HI_def STATUS2_JETS2_LO_def STATUS2_AUX_LO_def

lemma jsAnd_bit: "k \<le> 31 \<Longrightarrow> (jsAnd (Some (Num a)) (2 ^ k) \<noteq> 0) = bit a k"
  by (simp add: jsAnd_def toInt32_def and_exp_eq_0_iff_not_bit bit_signed_take_bit_iff min_def)

lemma jsAnd_masks:
  "(jsAnd (Some (Num a)) 0x01 \<noteq> 0) = bit a 0"
  "(jsAnd (Some (Num a)) 0x02 \<noteq> 0) = bit a 1"
  "(jsAnd (Some (Num a)) 0x04 \<noteq> 0) = bit a 2"
  "(jsAnd (Some (Num a)) 0x08 \<noteq> 0) = bit a 3"
  "(jsAnd (Some (Num a)) 0x10 \<noteq> 0) = bit a 4"
  "(jsAnd (Some (Num a)) 0x20 \<noteq> 0) = bit a 5"
  "(jsAnd (Some (Num a)) 0x40 \<noteq> 0) = bit a 6"
  "(jsAnd (Some (Num a)) 0x80 \<noteq> 0) = bit a 7"
  using jsAnd_bit [of 0 a] jsAnd_bit [of 1 a] jsAnd_bit [of 2 a] jsAnd_bit [of 3 a]
    jsAnd_bit [of 4 a] jsAnd_bit [of 5 a] jsAnd_bit [of 6 a] jsAnd_bit [of 7 a]
  by simp_all

text \<open>
  Claim C4, as the code has it. When a display carries the status bytes \<open>a\<close> and \<open>b\<close>, the
  flags of the updated state are bits of these bytes, whatever the state was before:
  heating, auxHi, jetsLo, jetsHi, filtering and edit are bits 0 to 5 of \<open>a\<close>, overheat is
  bit 6 of \<open>a\<close>, and lightOn, jets2Hi, jets2Lo, auxLo are bits 4 to 7 of \<open>b\<close>. The state has
  no flag for AM: bit 7 of \<open>a\<close> is kept in \<open>lastStatusByte1\<close> and becomes the flag \<open>am\<close> of
  the row when a reading is written.
\<close>

theorem status_bits_to_flags:
  assumes "statusByte1 d = Some (Num a)" and "statusByte2 d = Some (Num b)"
  shows "heating (updateStateFromDisplay d s) = bit a 0
       \<and> auxHi (updateStateFromDisplay d s) = bit a 1
       \<and> jetsLo (updateStateFromDisplay d s) = bit a 2
       \<and> jetsHi (updateStateFromDisplay d s) = bit a 3
       \<and> filtering (updateStateFromDisplay d s) = bit a 4
       \<and> edit (updateStateFromDisplay d s) = bit a 5
       \<and> overheat (updateStateFromDisplay d s) = bit a 6
       \<and> lightOn (updateStateFromDisplay d s) = bit b 4
       \<and> jets2Hi (updateStateFromDisplay d s) = bit b 5
       \<and> jets2Lo (updateStateFromDisplay d s) = bit b 6
       \<and> auxLo (updateStateFromDisplay d s) = bit b 7
       \<and> r_am (writeReading xs (updateStateFromDisplay d s)) = bit a 7"
  using assms
  by (simp add: updateStateFromDisplay_def writeReading_def Let_def status_masks jsAnd_masks)

theorem status_bits_to_flags_witness:
  "statusByte1 (parseDisplayData ''f16f6f00c590'') = Some (Num 0xc5)
   \<and> statusByte2 (parseDisplayData ''f16f6f00c590'') = Some (Num 0x90)
   \<and> heating (updateStateFromDisplay (parseDisplayData ''f16f6f00c590'') initialState)
   \<and> \<not> auxHi (updateStateFromDisplay (parseDisplayData ''f16f6f00c590'') initialState)
   \<and> overheat (updateStateFromDisplay (parseDisplayData ''f16f6f00c590'') initialState)
   \<and> lightOn (updateStateFromDisplay (parseDisplayData ''f16f6f00c590'') initialState)
   \<and> r_am (writeReading [] (updateStateFromDisplay (parseDisplayData ''f16f6f00c590'') initialState))"
proof -
  have a: "statusByte1 (parseDisplayData ''f16f6f00c590'') = Some (Num 0xc5)"
    by code_simp
  have b: "statusByte2 (parseDisplayData ''f16f6f00c590'') = Some (Num 0x90)"
    by code_simp
  show ?thesis
    using status_bits_to_flags [OF a b, of initialState "[]"] a b by simp
qed

text \<open>
  Claim C4 as the specification words it fails: bit 6 of status byte A is not left
  unmapped. Two frames whose status bytes differ in that bit alone give different
  \<open>overheat\<close> flags.
\<close>

theorem status_bit6_sets_overheat:
  "statusByte1 (parseDisplayData ''f16f6f004000'') = Some (Num 0x40)
   \<and> statusByte1 (parseDisplayData ''f16f6f000000'') = Some (Num 0x00)
   \<and> statusByte2 (parseDisplayData ''f16f6f004000'') = statusByte2 (parseDisplayData ''f16f6f000000'')
   \<and> overheat (updateStateFromDisplay (parseDisplayData ''f16f6f004000'') initialState)
   \<and> \<not> overheat (updateStateFromDisplay (parseDisplayData ''f16f6f000000'') initialState)"
  by code_simp

section \<open>The median\<close>

lemma median_sorted:
  assumes "vals \<noteq> []" and "sorted ys" and "mset ys = mset vals"
  shows "median vals =
           Some (if odd (length vals) then ys ! (length vals div 2)
                 else (ys ! (length vals div 2 - 1) + ys ! (length vals div 2)) / 2)"
proof -
  have s: "sort vals = ys"
    using assms(2,3) by (simp add: properties_for_sort)
  have l: "length ys = length vals"
    using assms(3) by (metis size_mset)
  show ?thesis
    using assms(1) by (simp add: median_def s l Let_def odd_iff_mod_2_eq_one)
qed

text \<open>
  Claim C9. \<open>median\<close> of the empty list is null. For a list that is not empty, let \<open>ys\<close> be
  its ascending arrangement (a sorted list with the same elements, counted with their
  multiplicity): the result is the element of \<open>ys\<close> in the middle when the length is odd,
  and the mean of the two central elements of \<open>ys\<close> when it is even. For 97, 99, 98 the
  result is 98, and for 97, 99 it is 98 too.
\<close>

theorem median_middle_of_sorted:
  "median [] = None
   \<and> (vals \<noteq> [] \<longrightarrow> sorted ys \<longrightarrow> mset ys = mset vals \<longrightarrow>
        median vals =
          Some (if odd (length vals) then ys ! (length vals div 2)
                else (ys ! (length vals div 2 - 1) + ys ! (length vals div 2)) / 2))
   \<and> median [97, 99, 98] = Some 98
   \<and> median [97, 99] = Some 98"
proof -
  have e: "median [] = None"
    by (simp add: median_def)
  have a: "median [97, 99, 98] = Some 98"
    by (simp add: median_def)
  have b: "median [97, 99] = Some 98"
    by (simp add: median_def)
  show ?thesis
    using e a b median_sorted [of vals ys] by blast
qed

theorem median_middle_of_sorted_witness:
  "[97, 99, 98, 101] \<noteq> ([] :: real list)
   \<and> sorted [97, 98, 99, 101 :: real]
   \<and> mset [97, 98, 99, 101 :: real] = mset [97, 99, 98, 101]
   \<and> median [97, 99, 98, 101] = Some (197 / 2)"
  using median_middle_of_sorted [of "[97, 99, 98, 101]" "[97, 98, 99, 101]"] by simp

section \<open>Sessions\<close>

lemma run_Nil: "run [] = collectReading"
  by (simp add: run_def runFrom_def)

lemma runFrom_snoc: "runFrom s (es @ [e]) = handle e (runFrom s es)"
  by (simp add: runFrom_def)

lemma run_snoc: "run (es @ [e]) = handle e (run es)"
  by (simp add: run_def runFrom_snoc)

lemma runFrom_append: "runFrom s (es @ post) = runFrom (runFrom s es) post"
  by (simp add: runFrom_def)

lemma run_append: "run (es @ post) = runFrom (run es) post"
  by (simp add: run_def runFrom_append)

lemma run_append_Cons: "run (es @ e # post) = runFrom (run (es @ [e])) post"
  using run_append [of "es @ [e]" post] by simp

text \<open>The message handler, read through \<open>displayOf\<close> and \<open>sampleOf\<close>.\<close>

lemma onMessage_no_display:
  "displayOf p = None \<Longrightarrow> onMessage p s = s"
  by (auto simp: onMessage_def displayOf_def split: Payload.splits if_splits)

lemma onMessage_no_sample:
  assumes "displayOf p = Some d" and "sampleOf (WsMessage p) = None"
  shows "onMessage p s = s\<lparr>state := updateStateFromDisplay d (state s)\<rparr>"
  using assms
  by (auto simp: onMessage_def displayOf_def sampleOf_def Let_def
           split: Payload.splits if_splits option.splits)

lemma onMessage_sample:
  assumes "displayOf p = Some d" and "sampleOf (WsMessage p) = Some t"
  shows "onMessage p s =
     (let s2 = s\<lparr>state := updateStateFromDisplay d (state s), samples := samples s @ [t]\<rparr>
      in if length (samples s2) \<ge> 3 then
           resolve (insertReading (writeReading (samples s2) (state s2)) (wsClose (clearTimeout s2)))
         else s2)"
  using assms
  by (auto simp: onMessage_def displayOf_def sampleOf_def Let_def SAMPLE_COUNT_def
           split: Payload.splits if_splits option.splits)

lemma sampleOf_display: "sampleOf (WsMessage p) = Some t \<Longrightarrow> \<exists>d. displayOf p = Some d"
  by (auto simp: sampleOf_def split: option.splits)


lemmas handler_defs =
  handle_def onOpen_def onClose_def onError_def onTimeout_def resolve_def reject_def
  clearTimeout_def wsClose_def insertReading_def

lemma message_cases:
  obtains (none) "displayOf p = None"
  | (quiet) d where "displayOf p = Some d" and "sampleOf (WsMessage p) = None"
  | (sample) d t where "displayOf p = Some d" and "sampleOf (WsMessage p) = Some t"
  by (cases "displayOf p"; cases "sampleOf (WsMessage p)") auto

lemma promise_settled_stays: "promise s \<noteq> Pending \<Longrightarrow> promise (handle e s) = promise s"
proof (cases e)
  case (WsMessage p)
  assume st: "promise s \<noteq> Pending"
  show ?thesis
  proof (cases p rule: message_cases)
    case none
    then show ?thesis using WsMessage by (simp add: handle_def onMessage_no_display)
  next
    case (quiet d)
    then show ?thesis using WsMessage by (simp add: handle_def onMessage_no_sample)
  next
    case (sample d t)
    then show ?thesis using WsMessage st
      by (simp add: handle_def onMessage_sample Let_def resolve_def insertReading_def
            wsClose_def clearTimeout_def)
  qed
qed (simp_all add: handler_defs Let_def)

lemma samplesOf_snoc:
  "samplesOf (es @ [e]) = samplesOf es @ (case sampleOf e of None \<Rightarrow> [] | Some t \<Rightarrow> [t])"
  by (simp add: samplesOf_def List.map_filter_def split: option.splits)

lemma samplesOf_Nil: "samplesOf [] = []"
  by (simp add: samplesOf_def List.map_filter_def)

lemma sampleOf_not_message: "\<not> isMessage e \<Longrightarrow> sampleOf e = None"
  by (cases e) (simp_all add: isMessage_def sampleOf_def)

lemma samples_handle:
  "samples (handle e s) = samples s @ (case sampleOf e of None \<Rightarrow> [] | Some t \<Rightarrow> [t])"
proof (cases e)
  case (WsMessage p)
  show ?thesis
  proof (cases p rule: message_cases)
    case none
    then show ?thesis using WsMessage
      by (simp add: handle_def onMessage_no_display sampleOf_def)
  next
    case (quiet d)
    then show ?thesis using WsMessage by (simp add: handle_def onMessage_no_sample)
  next
    case (sample d t)
    then show ?thesis using WsMessage
      by (simp add: handle_def onMessage_sample Let_def resolve_def insertReading_def
            wsClose_def clearTimeout_def)
  qed
qed (simp_all add: handler_defs Let_def sampleOf_def)

lemma samples_runFrom: "samples (runFrom s es) = samples s @ samplesOf es"
  by (induction es rule: rev_induct)
     (simp_all add: runFrom_snoc samples_handle samplesOf_snoc samplesOf_Nil runFrom_def)

lemma samples_run: "samples (run es) = samplesOf es"
  by (simp add: run_def samples_runFrom collectReading_def)

lemma pending_step:
  assumes "promise (handle e s) = Pending" and "promise s = Pending \<Longrightarrow> pendingInv s"
  shows "promise s = Pending \<and> pendingInv (handle e s)"
proof -
  have p: "promise s = Pending"
    using assms(1) promise_settled_stays [of s e] by auto
  then have i: "pendingInv s" using assms(2) by simp
  have "pendingInv (handle e s)"
  proof (cases e)
    case (WsMessage p)
    show ?thesis
    proof (cases p rule: message_cases)
      case none
      then show ?thesis using WsMessage i by (simp add: handle_def onMessage_no_display)
    next
      case (quiet d)
      then show ?thesis using WsMessage i
        by (simp add: handle_def onMessage_no_sample pendingInv_def)
    next
      case (sample d t)
      then show ?thesis using WsMessage i assms(1) p
        by (simp add: handle_def onMessage_sample Let_def resolve_def insertReading_def
              wsClose_def clearTimeout_def pendingInv_def split: if_splits)
    qed
  qed (use i p assms(1) in \<open>simp_all add: handler_defs Let_def pendingInv_def split: if_splits\<close>)
  then show ?thesis using p by simp
qed

lemma pending_run: "promise (run es) = Pending \<Longrightarrow> pendingInv (run es)"
proof (induction es rule: rev_induct)
  case Nil
  then show ?case by (simp add: run_Nil collectReading_def pendingInv_def)
next
  case (snoc e es)
  then show ?case using pending_step [of e "run es"] by (simp add: run_snoc)
qed


lemma frames_pending:
  "\<forall>e\<in>set es. isFrameOrOpen e \<Longrightarrow> length (samplesOf es) < 3 \<Longrightarrow> promise (run es) = Pending"
proof (induction es rule: rev_induct)
  case Nil
  then show ?case by (simp add: run_Nil collectReading_def)
next
  case (snoc e es)
  have l: "length (samplesOf es) < 3"
    using snoc.prems(2) by (simp add: samplesOf_snoc split: option.splits)
  then have p: "promise (run es) = Pending"
    using snoc by simp
  have fo: "isFrameOrOpen e" using snoc.prems(1) by simp
  show ?case
  proof (cases e)
    case WsOpen
    then show ?thesis using p by (simp add: run_snoc handle_def onOpen_def)
  next
    case (WsMessage pl)
    show ?thesis
    proof (cases pl rule: message_cases)
      case none
      then show ?thesis using WsMessage p by (simp add: run_snoc handle_def onMessage_no_display)
    next
      case (quiet d)
      then show ?thesis using WsMessage p by (simp add: run_snoc handle_def onMessage_no_sample)
    next
      case (sample d t)
      have "length (samples (run es) @ [t]) < 3"
        using snoc.prems(2) sample WsMessage by (simp add: samples_run samplesOf_snoc)
      then show ?thesis using WsMessage p sample
        by (simp add: run_snoc handle_def onMessage_sample Let_def)
    qed
  qed (use fo in \<open>simp_all add: isFrameOrOpen_def\<close>)
qed

text \<open>After the timer is off, only a frame can add a row.\<close>

lemma timer_off_step:
  assumes "\<not> timeoutPending s" and "\<not> isMessage e"
  shows "inserted (handle e s) = inserted s \<and> \<not> timeoutPending (handle e s)
         \<and> closeCalls (handle e s) = closeCalls s"
  using assms by (cases e) (simp_all add: handler_defs isMessage_def)

lemma timer_off_runFrom:
  assumes "\<not> timeoutPending s" and "\<forall>e\<in>set post. \<not> isMessage e"
  shows "inserted (runFrom s post) = inserted s \<and> \<not> timeoutPending (runFrom s post)
         \<and> closeCalls (runFrom s post) = closeCalls s"
  using assms(2)
proof (induction post rule: rev_induct)
  case Nil
  then show ?case using assms(1) by (simp add: runFrom_def)
next
  case (snoc e post)
  then show ?case using timer_off_step [of "runFrom s post" e] by (simp add: runFrom_snoc)
qed

lemma settled_runFrom: "promise s \<noteq> Pending \<Longrightarrow> promise (runFrom s post) = promise s"
  by (induction post rule: rev_induct) (simp_all add: runFrom_snoc promise_settled_stays runFrom_def)

lemma three_samples_aux:
  assumes "\<forall>e\<in>set es. isFrameOrOpen e" and "length (samplesOf es) = 3"
  shows "map r_currentTemp (inserted (run es)) = [median (map real_of_int (samplesOf es))]
         \<and> \<not> timeoutPending (run es) \<and> promise (run es) = Resolved \<and> closeCalls (run es) = 1"
  using assms
proof (induction es rule: rev_induct)
  case Nil
  then show ?case by (simp add: samplesOf_Nil)
next
  case (snoc e es)
  have fo: "isFrameOrOpen e" and fs: "\<forall>e\<in>set es. isFrameOrOpen e"
    using snoc.prems(1) by simp_all
  show ?case
  proof (cases "sampleOf e")
    case None
    then have l: "length (samplesOf es) = 3" and eq: "samplesOf (es @ [e]) = samplesOf es"
      using snoc.prems(2) by (simp_all add: samplesOf_snoc)
    note ih = snoc.IH [OF fs l]
    show ?thesis
    proof (cases e)
      case WsOpen
      then show ?thesis using ih eq by (simp add: run_snoc handle_def onOpen_def)
    next
      case (WsMessage pl)
      show ?thesis
      proof (cases pl rule: message_cases)
        case none
        then show ?thesis using WsMessage ih eq
          by (simp add: run_snoc handle_def onMessage_no_display)
      next
        case (quiet d)
        then show ?thesis using WsMessage ih eq
          by (simp add: run_snoc handle_def onMessage_no_sample)
      next
        case (sample d t)
        then show ?thesis using None WsMessage by simp
      qed
    qed (use fo in \<open>simp_all add: isFrameOrOpen_def\<close>)
  next
    case (Some t)
    then have l: "length (samplesOf es) < 3" and eq: "samplesOf (es @ [e]) = samplesOf es @ [t]"
      using snoc.prems(2) by (simp_all add: samplesOf_snoc)
    have p: "promise (run es) = Pending"
      using frames_pending [OF fs l] .
    then have i: "pendingInv (run es)" by (rule pending_run)
    obtain pl where e: "e = WsMessage pl"
      using Some by (cases e) (simp_all add: sampleOf_def)
    obtain d where d: "displayOf pl = Some d"
      using Some e sampleOf_display by blast
    have l3: "length (samples (run es) @ [t]) = 3"
      using snoc.prems(2) eq by (simp add: samples_run)
    show ?thesis
      using e d Some p i l3 eq
      by (simp add: run_snoc handle_def onMessage_sample Let_def resolve_def insertReading_def
            wsClose_def clearTimeout_def pendingInv_def writeReading_def samples_run)
  qed
qed

lemma sorted_map_of_int: "sorted xs \<Longrightarrow> sorted (map real_of_int xs)"
  by (simp add: sorted_map)

lemma median_of_three:
  "median [real_of_int a, real_of_int b, real_of_int c] = Some (real_of_int (sort [a, b, c] ! 1))"
proof -
  let ?ys = "map real_of_int (sort [a, b, c])"
  have s: "sorted ?ys"
    by (rule sorted_map_of_int) (rule sorted_sort)
  have m: "mset ?ys = mset [real_of_int a, real_of_int b, real_of_int c]"
    by (simp only: mset_map mset_sort) simp
  have l: "length (sort [a, b, c]) = 3"
    by (simp only: length_sort) simp
  have "median [real_of_int a, real_of_int b, real_of_int c] = Some (?ys ! 1)"
    using median_sorted [of "[real_of_int a, real_of_int b, real_of_int c]" ?ys, OF _ s m]
    by simp
  also have "?ys ! 1 = real_of_int (sort [a, b, c] ! 1)"
    using l by (simp only: nth_map)
  finally show ?thesis .
qed

text \<open>
  Claim C5. When the events before the timer fires are frames (and the opening of the
  socket) of which exactly three are temperature frames, with the values \<open>a\<close>, \<open>b\<close>, \<open>c\<close> in
  this order of arrival, the session has passed exactly one row to \<open>insertReading\<close>, its
  temperature is the median of the three values, that is the middle one of the three put
  in ascending order, and the timer is cleared: it is no longer pending, so its firing
  afterwards changes nothing. The promise is resolved.
\<close>

theorem three_samples_one_reading:
  assumes "\<forall>e\<in>set es. isFrameOrOpen e" and "samplesOf es = [a, b, c]"
  shows "map r_currentTemp (inserted (run es)) = [Some (real_of_int (sort [a, b, c] ! 1))]
         \<and> length (inserted (run es)) = 1
         \<and> \<not> timeoutPending (run es)
         \<and> run (es @ [TimerFired]) = run es
         \<and> promise (run es) = Resolved"
proof -
  have l: "length (samplesOf es) = 3" using assms(2) by simp
  note h = three_samples_aux [OF assms(1) l]
  have m: "map r_currentTemp (inserted (run es)) = [Some (real_of_int (sort [a, b, c] ! 1))]"
    using h assms(2) median_of_three [of a b c] by simp
  then have n: "length (inserted (run es)) = 1"
    by (metis length_map length_Cons list.size(3) One_nat_def)
  have t: "run (es @ [TimerFired]) = run es"
    using h by (simp add: run_snoc handle_def onTimeout_def)
  show ?thesis using m n t h by simp
qed

theorem three_samples_one_reading_witness:
  "list_all isFrameOrOpen [WsOpen, WsMessage (Dsp ''f13f3f060410''), WsMessage (Dsp ''f17f6f000500''),
               WsMessage (Dsp ''f16f6f0004'')]
   \<and> samplesOf [WsOpen, WsMessage (Dsp ''f13f3f060410''), WsMessage (Dsp ''f17f6f000500''),
                WsMessage (Dsp ''f16f6f0004'')] = [100, 98, 99]
   \<and> map r_currentTemp (inserted (run [WsOpen, WsMessage (Dsp ''f13f3f060410''),
          WsMessage (Dsp ''f17f6f000500''), WsMessage (Dsp ''f16f6f0004'')])) = [Some 99]
   \<and> \<not> timeoutPending (run [WsOpen, WsMessage (Dsp ''f13f3f060410''),
          WsMessage (Dsp ''f17f6f000500''), WsMessage (Dsp ''f16f6f0004'')])"
proof -
  let ?es = "[WsOpen, WsMessage (Dsp ''f13f3f060410''), WsMessage (Dsp ''f17f6f000500''),
              WsMessage (Dsp ''f16f6f0004'')]"
  have a: "\<forall>e\<in>set ?es. isFrameOrOpen e"
    by (simp add: isFrameOrOpen_def)
  have a': "list_all isFrameOrOpen ?es"
    by (simp add: isFrameOrOpen_def)
  have b: "samplesOf ?es = [100, 98, 99]"
    by code_simp
  have m: "sort [100, 98, 99 :: int] ! 1 = 99"
    by simp
  show ?thesis
    using three_samples_one_reading [OF a b] a' b m by simp
qed

lemma terminated_by_timer:
  assumes "\<forall>e\<in>set es. isFrameOrOpen e" and "length (samplesOf es) < 3"
  shows "run (es @ [TimerFired]) =
     (let s1 = (run es)\<lparr>timeoutPending := False, closeCalls := 1\<rparr>
      in (if samplesOf es = [] then s1
          else s1\<lparr>inserted := [writeReading (samplesOf es) (state (run es))]\<rparr>)\<lparr>promise := Resolved\<rparr>)"
proof -
  have p: "promise (run es) = Pending" using frames_pending [OF assms] .
  then have i: "pendingInv (run es)" by (rule pending_run)
  show ?thesis using p i samples_run [of es]
    by (simp add: run_snoc handler_defs Let_def pendingInv_def)
qed

lemma terminated_by_close:
  assumes "\<forall>e\<in>set es. isFrameOrOpen e" and "length (samplesOf es) < 3"
  shows "run (es @ [WsClose]) = (run es)\<lparr>timeoutPending := False, promise := Resolved\<rparr>"
    and "run (es @ [WsError]) = (run es)\<lparr>timeoutPending := False, promise := Rejected\<rparr>"
proof -
  have p: "promise (run es) = Pending" using frames_pending [OF assms] .
  then show "run (es @ [WsClose]) = (run es)\<lparr>timeoutPending := False, promise := Resolved\<rparr>"
    and "run (es @ [WsError]) = (run es)\<lparr>timeoutPending := False, promise := Rejected\<rparr>"
    by (simp_all add: run_snoc handler_defs)
qed

text \<open>
  Claim C1, as the code has it. When only frames have arrived, none of them a temperature
  frame, and the timer fires, the handler asks the socket to close and resolves the
  promise, and no row is passed to \<open>insertReading\<close>: the guard \<^verbatim>\<open>samples.length > 0\<close>
  skips \<open>writeReading\<close>. When instead the socket reports an error, the promise is rejected
  and no row is written either. Events other than frames that follow add no row.
\<close>

theorem no_sample_no_reading:
  assumes "\<forall>e\<in>set es. isFrameOrOpen e" and "samplesOf es = []"
    and "\<forall>e\<in>set post. \<not> isMessage e"
  shows "inserted (run (es @ TimerFired # post)) = []
       \<and> promise (run (es @ TimerFired # post)) = Resolved
       \<and> closeCalls (run (es @ TimerFired # post)) = 1
       \<and> inserted (run (es @ WsError # post)) = []
       \<and> promise (run (es @ WsError # post)) = Rejected"
proof -
  have l: "length (samplesOf es) < 3" using assms(2) by simp
  have p: "promise (run es) = Pending" using frames_pending [OF assms(1) l] .
  then have i: "pendingInv (run es)" by (rule pending_run)
  have t: "run (es @ [TimerFired]) = (run es)\<lparr>timeoutPending := False, closeCalls := 1, promise := Resolved\<rparr>"
    using terminated_by_timer [OF assms(1) l] assms(2) by (simp add: Let_def)
  have e: "run (es @ [WsError]) = (run es)\<lparr>timeoutPending := False, promise := Rejected\<rparr>"
    using terminated_by_close(2) [OF assms(1) l] .
  have "inserted (run (es @ TimerFired # post)) = [] \<and> closeCalls (run (es @ TimerFired # post)) = 1"
    using timer_off_runFrom [of "run (es @ [TimerFired])" post] assms(3) t i
    by (simp add: run_append_Cons [of es TimerFired post] pendingInv_def)
  moreover have "promise (run (es @ TimerFired # post)) = Resolved"
    using settled_runFrom [of "run (es @ [TimerFired])" post] t
    by (simp add: run_append_Cons [of es TimerFired post])
  moreover have "inserted (run (es @ WsError # post)) = []"
    using timer_off_runFrom [of "run (es @ [WsError])" post] assms(3) e i
    by (simp add: run_append_Cons [of es WsError post] pendingInv_def)
  moreover have "promise (run (es @ WsError # post)) = Rejected"
    using settled_runFrom [of "run (es @ [WsError])" post] e
    by (simp add: run_append_Cons [of es WsError post])
  ultimately show ?thesis by simp
qed

theorem no_sample_no_reading_witness:
  "list_all isFrameOrOpen [WsOpen, WsMessage (Dsp ''5bdb87000500'')]
   \<and> samplesOf [WsOpen, WsMessage (Dsp ''5bdb87000500'')] = []
   \<and> \<not> isMessage WsClose
   \<and> inserted (run ([WsOpen, WsMessage (Dsp ''5bdb87000500'')] @ TimerFired # [WsClose])) = []
   \<and> promise (run ([WsOpen, WsMessage (Dsp ''5bdb87000500'')] @ TimerFired # [WsClose])) = Resolved
   \<and> promise (run ([WsOpen, WsMessage (Dsp ''5bdb87000500'')] @ WsError # [WsClose])) = Rejected"
proof -
  let ?es = "[WsOpen, WsMessage (Dsp ''5bdb87000500'')]"
  have a: "\<forall>e\<in>set ?es. isFrameOrOpen e"
    by (simp add: isFrameOrOpen_def)
  have a': "list_all isFrameOrOpen ?es"
    by (simp add: isFrameOrOpen_def)
  have b: "samplesOf ?es = []"
    by code_simp
  have c: "\<forall>e\<in>set [WsClose]. \<not> isMessage e"
    by (simp add: isMessage_def)
  have c': "\<not> isMessage WsClose"
    by (simp add: isMessage_def)
  show ?thesis
    using no_sample_no_reading [OF a b c] a' b c' by simp
qed

text \<open>
  Claim C1 as the specification words it fails: a time frame, then the timer, and the
  session ends with no sample and no row; an error after the opening ends it with no row.
\<close>

theorem timeout_without_samples_writes_nothing:
  "samples (run [WsOpen, WsMessage (Dsp ''5bdb87000500''), TimerFired]) = []
   \<and> inserted (run [WsOpen, WsMessage (Dsp ''5bdb87000500''), TimerFired]) = []
   \<and> promise (run [WsOpen, WsMessage (Dsp ''5bdb87000500''), TimerFired]) = Resolved
   \<and> inserted (run [WsOpen, WsError]) = []
   \<and> promise (run [WsOpen, WsError]) = Rejected"
  by code_simp

text \<open>
  Claim C2, as the code has it. When only frames have arrived, fewer than three of them
  temperature frames, and the socket reports that it closed or failed, the session ends
  (the promise is resolved on close, rejected on error) and no row is passed to
  \<open>insertReading\<close>: the samples collected so far are dropped. Events other than frames
  that follow add no row.
\<close>

theorem close_discards_samples:
  assumes "\<forall>e\<in>set es. isFrameOrOpen e" and "length (samplesOf es) < 3"
    and "\<forall>e\<in>set post. \<not> isMessage e"
  shows "inserted (run (es @ WsClose # post)) = []
       \<and> promise (run (es @ WsClose # post)) = Resolved
       \<and> inserted (run (es @ WsError # post)) = []
       \<and> promise (run (es @ WsError # post)) = Rejected"
proof -
  have p: "promise (run es) = Pending" using frames_pending [OF assms(1,2)] .
  then have i: "pendingInv (run es)" by (rule pending_run)
  have c: "run (es @ [WsClose]) = (run es)\<lparr>timeoutPending := False, promise := Resolved\<rparr>"
    using terminated_by_close(1) [OF assms(1,2)] .
  have e: "run (es @ [WsError]) = (run es)\<lparr>timeoutPending := False, promise := Rejected\<rparr>"
    using terminated_by_close(2) [OF assms(1,2)] .
  have "inserted (run (es @ WsClose # post)) = []"
    using timer_off_runFrom [of "run (es @ [WsClose])" post] assms(3) c i
    by (simp add: run_append_Cons [of es WsClose post] pendingInv_def)
  moreover have "promise (run (es @ WsClose # post)) = Resolved"
    using settled_runFrom [of "run (es @ [WsClose])" post] c
    by (simp add: run_append_Cons [of es WsClose post])
  moreover have "inserted (run (es @ WsError # post)) = []"
    using timer_off_runFrom [of "run (es @ [WsError])" post] assms(3) e i
    by (simp add: run_append_Cons [of es WsError post] pendingInv_def)
  moreover have "promise (run (es @ WsError # post)) = Rejected"
    using settled_runFrom [of "run (es @ [WsError])" post] e
    by (simp add: run_append_Cons [of es WsError post])
  ultimately show ?thesis by simp
qed


theorem close_discards_samples_witness:
  "list_all isFrameOrOpen [WsOpen, WsMessage (Dsp ''f17f6f000500'')]
   \<and> samplesOf [WsOpen, WsMessage (Dsp ''f17f6f000500'')] = [98]
   \<and> \<not> isMessage TimerFired
   \<and> inserted (run ([WsOpen, WsMessage (Dsp ''f17f6f000500'')] @ WsClose # [TimerFired])) = []
   \<and> promise (run ([WsOpen, WsMessage (Dsp ''f17f6f000500'')] @ WsClose # [TimerFired])) = Resolved"
proof -
  let ?es = "[WsOpen, WsMessage (Dsp ''f17f6f000500'')]"
  have s: "samplesOf ?es = [98]"
    by code_simp
  have a: "\<forall>e\<in>set ?es. isFrameOrOpen e"
    by (simp add: isFrameOrOpen_def)
  have a': "list_all isFrameOrOpen ?es"
    by (simp add: isFrameOrOpen_def)
  have b: "length (samplesOf ?es) < 3"
    using s by simp
  have c: "\<forall>e\<in>set [TimerFired]. \<not> isMessage e"
    by (simp add: isMessage_def)
  have c': "\<not> isMessage TimerFired"
    by (simp add: isMessage_def)
  show ?thesis
    using close_discards_samples [OF a b c] a' s c' by simp
qed

text \<open>
  Claim C2 as the specification words it fails: one temperature frame of 98 degrees, then
  the close of the socket, and nothing is written.
\<close>

theorem close_with_one_sample_writes_nothing:
  "samples (run [WsOpen, WsMessage (Dsp ''f17f6f000500''), WsClose]) = [98]
   \<and> inserted (run [WsOpen, WsMessage (Dsp ''f17f6f000500''), WsClose]) = []
   \<and> promise (run [WsOpen, WsMessage (Dsp ''f17f6f000500''), WsClose]) = Resolved
   \<and> inserted (run [WsOpen, WsMessage (Dsp ''f17f6f000500''), WsError]) = []"
  by code_simp

lemma message_terminates:
  assumes "promise s = Pending" and "promise (handle (WsMessage p) s) \<noteq> Pending"
  shows "sampleOf (WsMessage p) \<noteq> None
         \<and> inserted (handle (WsMessage p) s) =
             inserted s @ [writeReading (samples (handle (WsMessage p) s)) (state (handle (WsMessage p) s))]
         \<and> \<not> timeoutPending (handle (WsMessage p) s)"
proof (cases p rule: message_cases)
  case none
  then show ?thesis using assms by (simp add: handle_def onMessage_no_display)
next
  case (quiet d)
  then show ?thesis using assms by (simp add: handle_def onMessage_no_sample)
next
  case (sample d t)
  then show ?thesis using assms
    by (simp add: handle_def onMessage_sample Let_def resolve_def insertReading_def
          wsClose_def clearTimeout_def split: if_splits)
qed

text \<open>
  Claim C3, as the code has it. Let \<open>e\<close> be the first event that settles the promise, and
  let only events other than frames follow it. Then the session has written one row when
  \<open>e\<close> is the temperature frame that completes the three samples, or the timer with at
  least one sample collected, and no row otherwise (close, error, or the timer without a
  sample); the events that follow change neither the rows nor the promise. Frames that
  arrive after \<open>e\<close> are not covered by this statement.
\<close>

theorem first_termination_decides:
  assumes "promise (run es) = Pending"
    and "promise (run (es @ [e])) \<noteq> Pending"
    and "\<forall>x\<in>set post. \<not> isMessage x"
  shows "length (inserted (run (es @ e # post))) =
           (if (e = TimerFired \<and> samplesOf es \<noteq> []) \<or> sampleOf e \<noteq> None then 1 else 0)
       \<and> promise (run (es @ e # post)) = promise (run (es @ [e]))"
proof -
  have i: "pendingInv (run es)" using assms(1) by (rule pending_run)
  have r: "run (es @ e # post) = runFrom (run (es @ [e])) post"
    by (rule run_append_Cons)
  have now: "length (inserted (run (es @ [e]))) =
           (if (e = TimerFired \<and> samplesOf es \<noteq> []) \<or> sampleOf e \<noteq> None then 1 else 0)
         \<and> \<not> timeoutPending (run (es @ [e]))"
  proof (cases e)
    case WsOpen
    then show ?thesis using assms(1,2) by (simp add: run_snoc handle_def onOpen_def)
  next
    case (WsMessage p)
    then show ?thesis
      using message_terminates [of "run es" p] assms(1,2) i
      by (simp add: run_snoc pendingInv_def)
  next
    case WsClose
    then show ?thesis using i by (simp add: run_snoc handler_defs pendingInv_def sampleOf_def)
  next
    case WsError
    then show ?thesis using i by (simp add: run_snoc handler_defs pendingInv_def sampleOf_def)
  next
    case TimerFired
    then show ?thesis using i samples_run [of es]
      by (simp add: run_snoc handler_defs pendingInv_def sampleOf_def Let_def)
  qed
  have off: "\<not> timeoutPending (run (es @ [e]))"
    using now by simp
  have "inserted (runFrom (run (es @ [e])) post) = inserted (run (es @ [e]))"
    using timer_off_runFrom [OF off assms(3)] by simp
  moreover have "promise (runFrom (run (es @ [e])) post) = promise (run (es @ [e]))"
    using settled_runFrom [OF assms(2), of post] .
  ultimately show ?thesis using now r by simp
qed


theorem first_termination_decides_witness:
  "promise (run [WsOpen, WsMessage (Dsp ''f17f6f000500''), WsMessage (Dsp ''f16f6f0004'')]) = Pending
   \<and> promise (run ([WsOpen, WsMessage (Dsp ''f17f6f000500''), WsMessage (Dsp ''f16f6f0004'')]
          @ [WsMessage (Dsp ''f13f3f060410'')])) = Resolved
   \<and> list_all (\<lambda>x. \<not> isMessage x) [WsClose, TimerFired, WsError]
   \<and> length (inserted (run ([WsOpen, WsMessage (Dsp ''f17f6f000500''), WsMessage (Dsp ''f16f6f0004'')]
          @ WsMessage (Dsp ''f13f3f060410'') # [WsClose, TimerFired, WsError]))) = 1
   \<and> promise (run ([WsOpen, WsMessage (Dsp ''f17f6f000500''), WsMessage (Dsp ''f16f6f0004'')]
          @ WsMessage (Dsp ''f13f3f060410'') # [WsClose, TimerFired, WsError])) = Resolved"
proof -
  let ?es = "[WsOpen, WsMessage (Dsp ''f17f6f000500''), WsMessage (Dsp ''f16f6f0004'')]"
  let ?e = "WsMessage (Dsp ''f13f3f060410'')"
  have a: "promise (run ?es) = Pending"
    by code_simp
  have r: "promise (run (?es @ [?e])) = Resolved"
    by code_simp
  then have b: "promise (run (?es @ [?e])) \<noteq> Pending"
    by simp
  have c: "\<forall>x\<in>set [WsClose, TimerFired, WsError]. \<not> isMessage x"
    by (simp add: isMessage_def)
  have c': "list_all (\<lambda>x. \<not> isMessage x) [WsClose, TimerFired, WsError]"
    by (simp add: isMessage_def)
  have s: "sampleOf ?e = Some 100"
    by code_simp
  show ?thesis
    using first_termination_decides [OF a b c] a r c' s by simp
qed

text \<open>
  Claim C3 as the specification words it fails: a session whose socket closes before three
  samples have arrived produces no row at all, not one.
\<close>

theorem close_first_no_reading:
  "length (inserted (run [WsOpen, WsClose])) = 0
   \<and> length (inserted (run [WsOpen, WsMessage (Dsp ''5bdb87000500''), WsClose, TimerFired])) = 0"
  by code_simp

text \<open>
  The message handler does not look at the promise or at the socket: a temperature frame
  that is delivered after the third sample goes through the same branch and writes a
  second row.
\<close>

lemma late_frame_writes_again:
  "map r_currentTemp (inserted (run [WsOpen, WsMessage (Dsp ''f17f6f000500''),
       WsMessage (Dsp ''f16f6f0004''), WsMessage (Dsp ''f13f3f060410''),
       WsMessage (Dsp ''f13f3f060410'')])) = [Some 99, Some (199 / 2)]"
  by code_simp

lemma update_without_statusA:
  "statusByte1 d = None \<Longrightarrow> lastStatusByte1 (updateStateFromDisplay d st) = lastStatusByte1 st"
  by (simp add: updateStateFromDisplay_def Let_def)

lemma writeReading_am_null: "lastStatusByte1 st = None \<Longrightarrow> \<not> r_am (writeReading xs st)"
  by (simp add: writeReading_def)

lemma no_statusA_step:
  assumes "\<not> carriesStatusA e" and "lastStatusByte1 (state s) = None"
    and "\<forall>r\<in>set (inserted s). \<not> r_am r"
  shows "lastStatusByte1 (state (handle e s)) = None \<and> (\<forall>r\<in>set (inserted (handle e s)). \<not> r_am r)"
proof (cases e)
  case (WsMessage p)
  show ?thesis
  proof (cases p rule: message_cases)
    case none
    then show ?thesis using WsMessage assms by (simp add: handle_def onMessage_no_display)
  next
    case (quiet d)
    then have "statusByte1 d = None"
      using assms(1) WsMessage by (simp add: carriesStatusA_def)
    then show ?thesis using WsMessage assms quiet
      by (simp add: handle_def onMessage_no_sample update_without_statusA)
  next
    case (sample d t)
    then have "statusByte1 d = None"
      using assms(1) WsMessage by (simp add: carriesStatusA_def)
    then show ?thesis using WsMessage assms sample
      by (simp add: handle_def onMessage_sample Let_def resolve_def insertReading_def
            wsClose_def clearTimeout_def update_without_statusA writeReading_am_null)
  qed
qed (use assms in \<open>simp_all add: handler_defs Let_def writeReading_am_null\<close>)

text \<open>
  Claim C10. When no frame that the session has processed carried status byte A,
  \<open>lastStatusByte1\<close> is still null, and every row the session has written has the flag
  \<open>am\<close> false.
\<close>

theorem am_false_without_status_byte:
  assumes "\<forall>e\<in>set es. \<not> carriesStatusA e"
  shows "lastStatusByte1 (state (run es)) = None \<and> (\<forall>r\<in>set (inserted (run es)). \<not> r_am r)"
  using assms
proof (induction es rule: rev_induct)
  case Nil
  then show ?case by (simp add: run_Nil collectReading_def initialState_def)
next
  case (snoc e es)
  then show ?case using no_statusA_step [of e "run es"] by (simp add: run_snoc)
qed

theorem am_false_without_status_byte_witness:
  "list_all (\<lambda>e. \<not> carriesStatusA e)
     [WsOpen, WsMessage (Dsp ''716d7d''), WsMessage (Dsp ''716d7d''), WsMessage NoDsp, TimerFired]
   \<and> map r_currentTemp (inserted (run [WsOpen, WsMessage (Dsp ''716d7d''),
          WsMessage (Dsp ''716d7d''), WsMessage NoDsp, TimerFired])) = [Some 65]
   \<and> lastStatusByte1 (state (run [WsOpen, WsMessage (Dsp ''716d7d''),
          WsMessage (Dsp ''716d7d''), WsMessage NoDsp, TimerFired])) = None
   \<and> list_all (\<lambda>r. \<not> r_am r) (inserted (run [WsOpen, WsMessage (Dsp ''716d7d''),
          WsMessage (Dsp ''716d7d''), WsMessage NoDsp, TimerFired]))"
proof -
  let ?es = "[WsOpen, WsMessage (Dsp ''716d7d''), WsMessage (Dsp ''716d7d''), WsMessage NoDsp,
              TimerFired]"
  have a: "\<forall>e\<in>set ?es. \<not> carriesStatusA e"
    by code_simp
  have a': "list_all (\<lambda>e. \<not> carriesStatusA e) ?es"
    using a by (simp only: list_all_iff)
  have b: "map r_currentTemp (inserted (run ?es)) = [Some 65]"
    by code_simp
  have "lastStatusByte1 (state (run ?es)) = None
        \<and> list_all (\<lambda>r. \<not> r_am r) (inserted (run ?es))"
    using am_false_without_status_byte [OF a] by (simp add: list_all_iff)
  then show ?thesis
    using a' b by blast
qed

section \<open>Sticky flags\<close>

lemma update_without_status:
  assumes "statusByte1 d = None" and "statusByte2 d = None"
  shows "heating (updateStateFromDisplay d s) = heating s
       \<and> auxHi (updateStateFromDisplay d s) = auxHi s
       \<and> jetsLo (updateStateFromDisplay d s) = jetsLo s
       \<and> jetsHi (updateStateFromDisplay d s) = jetsHi s
       \<and> filtering (updateStateFromDisplay d s) = filtering s
       \<and> lightOn (updateStateFromDisplay d s) = lightOn s
       \<and> edit (updateStateFromDisplay d s) = edit s
       \<and> overheat (updateStateFromDisplay d s) = overheat s
       \<and> jets2Hi (updateStateFromDisplay d s) = jets2Hi s
       \<and> jets2Lo (updateStateFromDisplay d s) = jets2Lo s
       \<and> auxLo (updateStateFromDisplay d s) = auxLo s
       \<and> lastStatusByte1 (updateStateFromDisplay d s) = lastStatusByte1 s"
  using assms by (simp add: updateStateFromDisplay_def Let_def)

lemma dtype_Blank_iff:
  "dtype (parseDisplayData h) = Blank
   \<longleftrightarrow> toLowerCase (substring h 0 10) = PATTERN_BLANK \<or> h = ''000000000010''"
  by (simp add: parseDisplayData_def Let_def split: option.splits)

lemma blank_no_status:
  assumes "dtype (parseDisplayData h) = Blank"
  shows "statusByte1 (parseDisplayData h) = None \<and> statusByte2 (parseDisplayData h) = None"
proof -
  have "toLowerCase (substring h 0 10) = PATTERN_BLANK \<or> h = ''000000000010''"
    using assms by (simp only: dtype_Blank_iff)
  then show ?thesis
    by (simp add: parseDisplayData_def Let_def)
qed

lemma letter_text_no_status:
  assumes "isLetterText (hexBytes h)" and "dtype (parseDisplayData h) = Unknown"
  shows "statusByte1 (parseDisplayData h) = None \<and> statusByte2 (parseDisplayData h) = None"
proof (cases "toLowerCase (substring h 0 10) = PATTERN_BLANK \<or> h = ''000000000010''")
  case True
  then show ?thesis by (simp add: parseDisplayData_def Let_def)
next
  case False
  then have "toLowerCase (substring h 0 8) \<noteq> toLowerCase PATTERN_ECON"
    using assms(2) by (auto simp: parseDisplayData_def Let_def)
  then show ?thesis using False assms(1) by (simp add: parseDisplayData_def Let_def)
qed

text \<open>
  Claim C6. Updating the state with a display that carries no status byte leaves the
  eleven flags and \<open>lastStatusByte1\<close> as they were. A blank frame is such a display, and so
  is the frame that the letter step returns as unknown. In particular, after a frame whose
  status byte A sets \<open>jetsLo\<close>, a blank frame leaves \<open>jetsLo\<close> true.
\<close>

theorem sticky_flags:
  "(statusByte1 d = None \<longrightarrow> statusByte2 d = None \<longrightarrow> sameFlags (updateStateFromDisplay d s) s)
   \<and> (dtype (parseDisplayData h) = Blank \<longrightarrow> sameFlags (updateStateFromDisplay (parseDisplayData h) s) s)
   \<and> (isLetterText (hexBytes h) \<longrightarrow> dtype (parseDisplayData h) = Unknown \<longrightarrow>
        sameFlags (updateStateFromDisplay (parseDisplayData h) s) s)
   \<and> jetsLo (updateStateFromDisplay (parseDisplayData ''f16f6f000400'') initialState)
   \<and> dtype (parseDisplayData ''000000000000'') = Blank
   \<and> jetsLo (updateStateFromDisplay (parseDisplayData ''000000000000'')
        (updateStateFromDisplay (parseDisplayData ''f16f6f000400'') initialState))"
proof -
  have g: "\<And>d. statusByte1 d = None \<Longrightarrow> statusByte2 d = None \<Longrightarrow> sameFlags (updateStateFromDisplay d s) s"
    using update_without_status unfolding sameFlags_def by blast
  have c: "jetsLo (updateStateFromDisplay (parseDisplayData ''f16f6f000400'') initialState)
   \<and> dtype (parseDisplayData ''000000000000'') = Blank
   \<and> jetsLo (updateStateFromDisplay (parseDisplayData ''000000000000'')
        (updateStateFromDisplay (parseDisplayData ''f16f6f000400'') initialState))"
    by code_simp
  show ?thesis using g blank_no_status [of h] letter_text_no_status [of h] c by blast
qed

theorem sticky_flags_witness:
  "dtype (parseDisplayData ''000000000010'') = Blank
   \<and> isLetterText (hexBytes ''5c3800000400'')
   \<and> dtype (parseDisplayData ''5c3800000400'') = Unknown
   \<and> statusByte1 (parseDisplayData ''5c3800000400'') = None
   \<and> statusByte2 (parseDisplayData ''5c3800000400'') = None
   \<and> sameFlags (updateStateFromDisplay (parseDisplayData ''5c3800000400'')
         (updateStateFromDisplay (parseDisplayData ''f16f6f000400'') initialState))
       (updateStateFromDisplay (parseDisplayData ''f16f6f000400'') initialState)
   \<and> sameFlags (updateStateFromDisplay (parseDisplayData ''000000000010'')
         (updateStateFromDisplay (parseDisplayData ''f16f6f000400'') initialState))
       (updateStateFromDisplay (parseDisplayData ''f16f6f000400'') initialState)"
proof -
  have a: "dtype (parseDisplayData ''000000000010'') = Blank"
    by code_simp
  have b: "isLetterText (hexBytes ''5c3800000400'') \<and> dtype (parseDisplayData ''5c3800000400'') = Unknown"
    by code_simp
  have c: "statusByte1 (parseDisplayData ''5c3800000400'') = None
           \<and> statusByte2 (parseDisplayData ''5c3800000400'') = None"
    by code_simp
  show ?thesis
    using a b c
      sticky_flags [of "parseDisplayData ''5c3800000400''"
        "updateStateFromDisplay (parseDisplayData ''f16f6f000400'') initialState"
        "''000000000010''"]
    by blast
qed

section \<open>The temperature step of the decoder\<close>

lemma toLowerCase_Cons:
  "toLowerCase (c # cs) = (case map_of upperToLower c of Some d \<Rightarrow> d | None \<Rightarrow> c) # toLowerCase cs"
  by (simp add: toLowerCase_def)

lemma lower_is_digit:
  assumes "(case map_of upperToLower c of Some d \<Rightarrow> d | None \<Rightarrow> c) = x"
    and "x \<in> set ''0123456789''"
  shows "c = x"
  using assms by (auto simp: upperToLower_def split: if_splits)

lemma starts_with_digits:
  assumes "toLowerCase (take n h) = x # y # rest" and "x \<in> set ''0123456789''" and "y \<in> set ''0123456789''"
  shows "\<exists>cs. h = x # y # cs"
proof -
  obtain c d cs where h: "h = c # d # cs"
    using assms(1) by (cases h; cases "tl h"; cases n; cases "n - 1") (auto simp: toLowerCase_def)
  have n: "take n h = c # d # take (n - 2) cs"
    using assms(1) h by (cases n; cases "n - 1") (auto simp: toLowerCase_def)
  have "c = x" and "d = y"
    using assms n lower_is_digit [of c x] lower_is_digit [of d y]
    by (simp_all add: toLowerCase_Cons)
  then show ?thesis using h by simp
qed

lemma parseInt16_00: "parseInt16 ''00'' = Num 0"
  by code_simp

lemma parseInt16_54: "parseInt16 ''54'' = Num 0x54"
  by code_simp

lemma byte0_of_blank:
  assumes "toLowerCase (substring h 0 10) = PATTERN_BLANK \<or> h = ''000000000010''"
  shows "byteAt (hexBytes h) 0 = Some (Num 0)"
proof -
  have "\<exists>cs. h = CHR ''0'' # CHR ''0'' # cs"
    using assms
  proof
    assume "toLowerCase (substring h 0 10) = PATTERN_BLANK"
    then have "toLowerCase (take 10 h) = CHR ''0'' # CHR ''0'' # ''00000000''"
      by (simp add: substring_def PATTERN_BLANK_def)
    then show ?thesis by (rule starts_with_digits) simp_all
  next
    assume "h = ''000000000010''"
    then show ?thesis by simp
  qed
  then obtain cs where "h = CHR ''0'' # CHR ''0'' # cs" by blast
  then show ?thesis by (simp add: byteAt_def parseInt16_00)
qed

lemma byte0_of_eco:
  assumes "toLowerCase (substring h 0 8) = toLowerCase PATTERN_ECON"
  shows "byteAt (hexBytes h) 0 = Some (Num 0x54)"
proof -
  have "toLowerCase PATTERN_ECON = CHR ''5'' # CHR ''4'' # ''5c3979''"
    by code_simp
  then have "toLowerCase (take 8 h) = CHR ''5'' # CHR ''4'' # ''5c3979''"
    using assms by (simp add: substring_def)
  then have "\<exists>cs. h = CHR ''5'' # CHR ''4'' # cs"
    by (rule starts_with_digits) simp_all
  then obtain cs where "h = CHR ''5'' # CHR ''4'' # cs" by blast
  then show ?thesis by (simp add: byteAt_def parseInt16_54)
qed

lemma jsAnd_values:
  "jsAnd (Some (Num 0)) 0x7f = 0" "jsAnd (Some (Num 0x54)) 0x7f = 0x54"
  by (simp_all add: jsAnd_def toInt32_def)


lemma digit_is_no_letter: "decodeDigit b \<noteq> None \<Longrightarrow> decodeLetter b = None"
  by (auto simp: decodeDigit_def decodeLetter_def SEVEN_SEGMENT_DIGITS_def
        SEVEN_SEGMENT_LETTERS_def Let_def split: if_splits)

lemma letter_F: "jsAnd b 0x7f = 0x71 \<Longrightarrow> decodeLetter b = Some CHR ''F''"
  by (simp add: decodeLetter_def SEVEN_SEGMENT_LETTERS_def Let_def)

lemma bytes_shapes:
  obtains "bs = []"
  | b0 where "bs = [b0]"
  | b0 b1 where "bs = [b0, b1]"
  | b0 b1 b2 where "bs = [b0, b1, b2]"
  | b0 b1 b2 b3 r where "bs = b0 # b1 # b2 # b3 # r"
  by (metis list.exhaust)

lemma two_letters_ending_F:
  "toUpperCase [x, CHR ''F''] \<notin> set [''HI'', ''LO'', ''ON'', ''OFF'', ''ECO'']"
  by (simp add: toUpperCase_def lowerToUpper_def)

lemma temperature_frame_no_letter_text:
  assumes "jsAnd (byteAt bs 0) 0x7f = 0x71"
    and "decodeDigit (byteAt bs 1) \<noteq> None" and "decodeDigit (byteAt bs 2) \<noteq> None"
  shows "\<not> isLetterText bs"
proof (cases bs rule: bytes_shapes)
  case 1
  then show ?thesis using assms(1) by (simp add: byteAt_def jsAnd_def toInt32_def)
next
  case (2 b0)
  then show ?thesis
    by (simp add: isLetterText_def lettersOf_def List.map_filter_def Let_def)
next
  case (3 b0 b1)
  then have "decodeLetter (Some b1) = None"
    using assms(2) digit_is_no_letter [of "Some b1"] by (simp add: byteAt_def)
  then show ?thesis using 3
    by (simp add: isLetterText_def lettersOf_def List.map_filter_def Let_def)
next
  case (4 b0 b1 b2)
  then have "decodeLetter (Some b1) = None" and "decodeLetter (Some b2) = None"
    using assms(2,3) digit_is_no_letter [of "Some b1"] digit_is_no_letter [of "Some b2"]
    by (simp_all add: byteAt_def)
  then show ?thesis using 4
    by (simp add: isLetterText_def lettersOf_def List.map_filter_def Let_def)
next
  case (5 b0 b1 b2 b3 r)
  then have n: "decodeLetter (Some b1) = None" "decodeLetter (Some b2) = None"
    using assms(2,3) digit_is_no_letter [of "Some b1"] digit_is_no_letter [of "Some b2"]
    by (simp_all add: byteAt_def)
  have f: "decodeLetter (Some b0) = Some CHR ''F''"
    using assms(1) 5 letter_F [of "Some b0"] by (simp add: byteAt_def)
  show ?thesis
  proof (cases "decodeLetter (Some b3)")
    case None
    then show ?thesis using 5 n f
      by (simp add: isLetterText_def lettersOf_def List.map_filter_def Let_def)
  next
    case (Some x)
    then have "lettersOf bs = [CHR ''F'', x]"
      using 5 n f by (simp add: lettersOf_def List.map_filter_def)
    then show ?thesis using two_letters_ending_F [of x]
      by (simp add: isLetterText_def Let_def)
  qed
qed

lemma temperature_frame_reaches_temperature_step:
  assumes "jsAnd (byteAt (hexBytes h) 0) 0x7f = 0x71"
    and "decodeDigit (byteAt (hexBytes h) 1) \<noteq> None" and "decodeDigit (byteAt (hexBytes h) 2) \<noteq> None"
  shows "parseDisplayData h =
     (case temperatureOf (hexBytes h) of
        Some t \<Rightarrow> \<lparr>dtype = Temp, temp = Some t, statusByte1 = byteAt (hexBytes h) 4,
                   statusByte2 = byteAt (hexBytes h) 5\<rparr>
      | None \<Rightarrow>
          if decodeDigit (byteAt (hexBytes h) 0) \<noteq> None then
            \<lparr>dtype = Time, temp = None, statusByte1 = byteAt (hexBytes h) 4,
             statusByte2 = byteAt (hexBytes h) 5\<rparr>
          else \<lparr>dtype = Unknown, temp = None, statusByte1 = byteAt (hexBytes h) 4,
                 statusByte2 = byteAt (hexBytes h) 5\<rparr>)"
proof -
  have b: "\<not> (toLowerCase (substring h 0 10) = PATTERN_BLANK \<or> h = ''000000000010'')"
    using byte0_of_blank [of h] assms(1) by (auto simp: jsAnd_values)
  have e: "toLowerCase (substring h 0 8) \<noteq> toLowerCase PATTERN_ECON"
    using byte0_of_eco [of h] assms(1) by (auto simp: jsAnd_values)
  have l: "\<not> isLetterText (hexBytes h)"
    using assms by (rule temperature_frame_no_letter_text)
  show ?thesis
    using b e l assms(2,3) by (simp add: parseDisplayData_def Let_def split: option.splits)
qed

lemma decodeDigit_range: "decodeDigit b = Some d \<Longrightarrow> 0 \<le> d \<and> d \<le> 9"
  by (auto simp: decodeDigit_def SEVEN_SEGMENT_DIGITS_def Let_def split: if_splits)

lemma F_is_no_digit: "jsAnd b 0x7f = 0x71 \<Longrightarrow> decodeDigit b = None"
  by (simp add: decodeDigit_def SEVEN_SEGMENT_DIGITS_def Let_def)

text \<open>
  Claim C7. Take a frame whose byte 0 has the Fahrenheit code 0x71 in its low seven bits
  and whose bytes 2 and 1 decode to the digits \<open>tens\<close> and \<open>ones\<close>. When \<open>10 * tens + ones\<close>
  lies between 45 and 99, the decoder returns a temperature with this value. When byte 3
  decodes to 1 and \<open>100 + 10 * tens + ones\<close> lies between 100 and 106, it returns a
  temperature with that value. The blank, economy and letter steps that come first never
  take such a frame.
\<close>

theorem fahrenheit_frame_is_temperature:
  assumes "jsAnd (byteAt (hexBytes h) 0) 0x7f = 0x71"
    and "decodeDigit (byteAt (hexBytes h) 2) = Some tens"
    and "decodeDigit (byteAt (hexBytes h) 1) = Some ones"
  shows "(45 \<le> 10 * tens + ones \<and> 10 * tens + ones \<le> 99 \<longrightarrow>
            dtype (parseDisplayData h) = Temp \<and> temp (parseDisplayData h) = Some (10 * tens + ones))
       \<and> (decodeDigit (byteAt (hexBytes h) 3) = Some 1
            \<and> 100 \<le> 100 + 10 * tens + ones \<and> 100 + 10 * tens + ones \<le> 106 \<longrightarrow>
            dtype (parseDisplayData h) = Temp
            \<and> temp (parseDisplayData h) = Some (100 + 10 * tens + ones))"
proof -
  have p: "parseDisplayData h =
     (case temperatureOf (hexBytes h) of
        Some t \<Rightarrow> \<lparr>dtype = Temp, temp = Some t, statusByte1 = byteAt (hexBytes h) 4,
                   statusByte2 = byteAt (hexBytes h) 5\<rparr>
      | None \<Rightarrow>
          if decodeDigit (byteAt (hexBytes h) 0) \<noteq> None then
            \<lparr>dtype = Time, temp = None, statusByte1 = byteAt (hexBytes h) 4,
             statusByte2 = byteAt (hexBytes h) 5\<rparr>
          else \<lparr>dtype = Unknown, temp = None, statusByte1 = byteAt (hexBytes h) 4,
                 statusByte2 = byteAt (hexBytes h) 5\<rparr>)"
    using assms by (intro temperature_frame_reaches_temperature_step) simp_all
  have two: "45 \<le> 10 * tens + ones \<and> 10 * tens + ones \<le> 99
             \<Longrightarrow> temperatureOf (hexBytes h) = Some (10 * tens + ones)"
    using assms
    by (simp add: temperatureOf_def threeDigitTemp_def twoDigitTemp_def Let_def
          MIN_VALID_TEMP_def MAX_VALID_TEMP_def mult.commute)
  have three: "decodeDigit (byteAt (hexBytes h) 3) = Some 1
             \<and> 100 \<le> 100 + 10 * tens + ones \<and> 100 + 10 * tens + ones \<le> 106
             \<Longrightarrow> temperatureOf (hexBytes h) = Some (100 + 10 * tens + ones)"
    using assms
    by (simp add: temperatureOf_def threeDigitTemp_def twoDigitTemp_def Let_def
          MIN_VALID_TEMP_def MAX_VALID_TEMP_def mult.commute)
  show ?thesis
    using two three by (auto simp: p)
qed


theorem fahrenheit_frame_is_temperature_witness:
  "jsAnd (byteAt (hexBytes ''f16f6f000400'') 0) 0x7f = 0x71
   \<and> decodeDigit (byteAt (hexBytes ''f16f6f000400'') 2) = Some 9
   \<and> decodeDigit (byteAt (hexBytes ''f16f6f000400'') 1) = Some 9
   \<and> dtype (parseDisplayData ''f16f6f000400'') = Temp
   \<and> temp (parseDisplayData ''f16f6f000400'') = Some 99
   \<and> jsAnd (byteAt (hexBytes ''714f3f060410'') 0) 0x7f = 0x71
   \<and> decodeDigit (byteAt (hexBytes ''714f3f060410'') 3) = Some 1
   \<and> decodeDigit (byteAt (hexBytes ''714f3f060410'') 2) = Some 0
   \<and> decodeDigit (byteAt (hexBytes ''714f3f060410'') 1) = Some 3
   \<and> dtype (parseDisplayData ''714f3f060410'') = Temp
   \<and> temp (parseDisplayData ''714f3f060410'') = Some 103"
proof -
  have a: "jsAnd (byteAt (hexBytes ''f16f6f000400'') 0) 0x7f = 0x71"
    and b: "decodeDigit (byteAt (hexBytes ''f16f6f000400'') 2) = Some 9"
    and c: "decodeDigit (byteAt (hexBytes ''f16f6f000400'') 1) = Some 9"
    by code_simp+
  have a': "jsAnd (byteAt (hexBytes ''714f3f060410'') 0) 0x7f = 0x71"
    and b': "decodeDigit (byteAt (hexBytes ''714f3f060410'') 2) = Some 0"
    and c': "decodeDigit (byteAt (hexBytes ''714f3f060410'') 1) = Some 3"
    and d': "decodeDigit (byteAt (hexBytes ''714f3f060410'') 3) = Some 1"
    by code_simp+
  show ?thesis
    using fahrenheit_frame_is_temperature [OF a b c] fahrenheit_frame_is_temperature [OF a' b' c']
      a b c a' b' c' d'
    by simp
qed

text \<open>
  Claim C8, as the code has it. Take a frame with the Fahrenheit code whose byte 3 decodes
  to 1 and whose tens and ones decode, with \<open>100 + 10 * tens + ones\<close> outside 100 to 106.
  The two-digit block runs after the three-digit block has not returned: when
  \<open>10 * tens + ones\<close> lies between 45 and 99 the decoder returns a temperature with this
  two-digit value, and otherwise it returns no temperature (the frame goes on to the time
  test, which byte 0 fails, and comes out as unknown).
\<close>

theorem hundreds_one_falls_back_to_two_digits:
  assumes "jsAnd (byteAt (hexBytes h) 0) 0x7f = 0x71"
    and "decodeDigit (byteAt (hexBytes h) 3) = Some 1"
    and "decodeDigit (byteAt (hexBytes h) 2) = Some tens"
    and "decodeDigit (byteAt (hexBytes h) 1) = Some ones"
    and "\<not> (100 \<le> 100 + 10 * tens + ones \<and> 100 + 10 * tens + ones \<le> 106)"
  shows "(45 \<le> 10 * tens + ones \<and> 10 * tens + ones \<le> 99 \<longrightarrow>
            dtype (parseDisplayData h) = Temp \<and> temp (parseDisplayData h) = Some (10 * tens + ones))
       \<and> (\<not> (45 \<le> 10 * tens + ones \<and> 10 * tens + ones \<le> 99) \<longrightarrow>
            dtype (parseDisplayData h) = Unknown \<and> temp (parseDisplayData h) = None)"
proof -
  have p: "parseDisplayData h =
     (case temperatureOf (hexBytes h) of
        Some t \<Rightarrow> \<lparr>dtype = Temp, temp = Some t, statusByte1 = byteAt (hexBytes h) 4,
                   statusByte2 = byteAt (hexBytes h) 5\<rparr>
      | None \<Rightarrow>
          if decodeDigit (byteAt (hexBytes h) 0) \<noteq> None then
            \<lparr>dtype = Time, temp = None, statusByte1 = byteAt (hexBytes h) 4,
             statusByte2 = byteAt (hexBytes h) 5\<rparr>
          else \<lparr>dtype = Unknown, temp = None, statusByte1 = byteAt (hexBytes h) 4,
                 statusByte2 = byteAt (hexBytes h) 5\<rparr>)"
    using assms(1,3,4) by (intro temperature_frame_reaches_temperature_step) simp_all
  have d0: "decodeDigit (byteAt (hexBytes h) 0) = None"
    using assms(1) by (rule F_is_no_digit)
  have two: "45 \<le> 10 * tens + ones \<and> 10 * tens + ones \<le> 99
             \<Longrightarrow> temperatureOf (hexBytes h) = Some (10 * tens + ones)"
    using assms
    by (simp add: temperatureOf_def threeDigitTemp_def twoDigitTemp_def Let_def
          MIN_VALID_TEMP_def MAX_VALID_TEMP_def mult.commute)
  have none: "\<not> (45 \<le> 10 * tens + ones \<and> 10 * tens + ones \<le> 99)
             \<Longrightarrow> temperatureOf (hexBytes h) = None"
    using assms
    by (simp add: temperatureOf_def threeDigitTemp_def twoDigitTemp_def Let_def
          MIN_VALID_TEMP_def MAX_VALID_TEMP_def mult.commute)
  show ?thesis
    using two none d0 by (auto simp: p)
qed

theorem hundreds_one_falls_back_to_two_digits_witness:
  "jsAnd (byteAt (hexBytes ''f17f6f060000'') 0) 0x7f = 0x71
   \<and> decodeDigit (byteAt (hexBytes ''f17f6f060000'') 3) = Some 1
   \<and> decodeDigit (byteAt (hexBytes ''f17f6f060000'') 2) = Some 9
   \<and> decodeDigit (byteAt (hexBytes ''f17f6f060000'') 1) = Some 8
   \<and> dtype (parseDisplayData ''f17f6f060000'') = Temp
   \<and> temp (parseDisplayData ''f17f6f060000'') = Some 98
   \<and> jsAnd (byteAt (hexBytes ''f13f5b060000'') 0) 0x7f = 0x71
   \<and> decodeDigit (byteAt (hexBytes ''f13f5b060000'') 3) = Some 1
   \<and> decodeDigit (byteAt (hexBytes ''f13f5b060000'') 2) = Some 2
   \<and> decodeDigit (byteAt (hexBytes ''f13f5b060000'') 1) = Some 0
   \<and> dtype (parseDisplayData ''f13f5b060000'') = Unknown
   \<and> temp (parseDisplayData ''f13f5b060000'') = None"
proof -
  have a: "jsAnd (byteAt (hexBytes ''f17f6f060000'') 0) 0x7f = 0x71"
    and h: "decodeDigit (byteAt (hexBytes ''f17f6f060000'') 3) = Some 1"
    and b: "decodeDigit (byteAt (hexBytes ''f17f6f060000'') 2) = Some 9"
    and c: "decodeDigit (byteAt (hexBytes ''f17f6f060000'') 1) = Some 8"
    by code_simp+
  have r: "\<not> (100 \<le> 100 + 10 * 9 + (8::int) \<and> 100 + 10 * 9 + (8::int) \<le> 106)"
    by simp
  have a': "jsAnd (byteAt (hexBytes ''f13f5b060000'') 0) 0x7f = 0x71"
    and h': "decodeDigit (byteAt (hexBytes ''f13f5b060000'') 3) = Some 1"
    and b': "decodeDigit (byteAt (hexBytes ''f13f5b060000'') 2) = Some 2"
    and c': "decodeDigit (byteAt (hexBytes ''f13f5b060000'') 1) = Some 0"
    by code_simp+
  have r': "\<not> (100 \<le> 100 + 10 * 2 + (0::int) \<and> 100 + 10 * 2 + (0::int) \<le> 106)"
    by simp
  show ?thesis
    using hundreds_one_falls_back_to_two_digits [OF a h b c r]
      hundreds_one_falls_back_to_two_digits [OF a' h' b' c' r']
      a h b c a' h' b' c'
    by simp
qed

text \<open>
  Claim C8 as the specification words it fails: with the hundreds digit 1, tens 9 and ones
  8, the value 198 is refused and the decoder returns the temperature 98.
\<close>

theorem hundreds_one_out_of_range_still_temperature:
  "jsAnd (byteAt (hexBytes ''f17f6f060000'') 0) 0x7f = 0x71
   \<and> decodeDigit (byteAt (hexBytes ''f17f6f060000'') 3) = Some 1
   \<and> decodeDigit (byteAt (hexBytes ''f17f6f060000'') 2) = Some 9
   \<and> decodeDigit (byteAt (hexBytes ''f17f6f060000'') 1) = Some 8
   \<and> dtype (parseDisplayData ''f17f6f060000'') = Temp
   \<and> temp (parseDisplayData ''f17f6f060000'') = Some 98"
  by code_simp

end
